theory Spec2Isabelle
  imports Complex_Main "HOL-Library.Sublist"
begin

section \<open>The auto-annotation edge function\<close>

text \<open>
  The theory embeds the edge function \<^verbatim>\<open>ai-annotate\<close> (\<^verbatim>\<open>src/unnamed/part_001\<close>): the
  request handler passed to \<^verbatim>\<open>Deno.serve\<close> and the four heuristics \<^verbatim>\<open>classifyText\<close>,
  \<^verbatim>\<open>analyzeSentiment\<close>, \<^verbatim>\<open>extractEntities\<close> and \<^verbatim>\<open>summarizeText\<close>.

  A JavaScript string is a sequence of UTF-16 code units. Here a string is a \<^typ>\<open>string\<close>
  whose characters are the code units below 256 (Basic Latin and Latin-1 Supplement), so
  \<^term>\<open>length\<close> is the \<^verbatim>\<open>length\<close> property. Strings with code units from 256 on are outside
  the model.
\<close>

subsection \<open>String methods of the language\<close>

definition unit_code :: "char \<Rightarrow> nat" where
  "unit_code c = of_char c"

text \<open>
  \<^verbatim>\<open>String.prototype.toLowerCase\<close>: below 256 the letters with a lower-case mapping are
  \<^verbatim>\<open>A\<close>-\<^verbatim>\<open>Z\<close> (65-90) and the Latin-1 capitals 192-222 without the multiplication sign 215;
  each maps to the unit 32 above it.
\<close>

definition lower_unit :: "char \<Rightarrow> char" where
  "lower_unit c =
     (let n = unit_code c in
      if (65 \<le> n \<and> n \<le> 90) \<or> (192 \<le> n \<and> n \<le> 222 \<and> n \<noteq> 215)
      then char_of (n + 32) else c)"

definition toLowerCase :: "string \<Rightarrow> string" where
  "toLowerCase s = map lower_unit s"

text \<open>
  \<^verbatim>\<open>String.prototype.includes\<close>: the argument occurs as a contiguous run of code units.
\<close>

fun startsWith :: "string \<Rightarrow> string \<Rightarrow> bool" where
  "startsWith s [] = True"
| "startsWith [] (p # ps) = False"
| "startsWith (c # cs) (p # ps) = (c = p \<and> startsWith cs ps)"

fun "includes" :: "string \<Rightarrow> string \<Rightarrow> bool" where
  "includes [] sub = (sub = [])"
| "includes (c # cs) sub = (startsWith (c # cs) sub \<or> includes cs sub)"

text \<open>
  \<^verbatim>\<open>String.prototype.split\<close> with a separator of one code unit: the pieces between the
  occurrences of the separator, so a string without the separator (the empty string too)
  gives one piece.
\<close>

fun split :: "char \<Rightarrow> string \<Rightarrow> string list" where
  "split sep [] = [[]]"
| "split sep (c # cs) =
     (if c = sep then [] # split sep cs
      else (let r = split sep cs in (c # hd r) # tl r))"

text \<open>\<^verbatim>\<open>Array.prototype.join\<close> on an array of strings.\<close>

fun join :: "string \<Rightarrow> string list \<Rightarrow> string" where
  "join sep [] = []"
| "join sep [w] = w"
| "join sep (w # v # ws) = w @ sep @ join sep (v # ws)"

text \<open>\<^verbatim>\<open>Array.prototype.slice\<close> with indices that are not negative.\<close>

definition slice :: "nat \<Rightarrow> nat \<Rightarrow> 'a list \<Rightarrow> 'a list" where
  "slice b e xs = take (e - b) (drop b xs)"

text \<open>
  \<^verbatim>\<open>String.prototype.trim\<close> strips white space and line terminators from both ends. Below
  256 these are TAB, LF, VT, FF, CR, SPACE and NO-BREAK SPACE.
\<close>

definition isWhiteSpace :: "char \<Rightarrow> bool" where
  "isWhiteSpace c = (unit_code c \<in> {9, 10, 11, 12, 13, 32, 160})"

definition trim :: "string \<Rightarrow> string" where
  "trim s = rev (dropWhile isWhiteSpace (rev (dropWhile isWhiteSpace s)))"

text \<open>A string is truthy when it is not empty.\<close>

definition truthy :: "string \<Rightarrow> bool" where
  "truthy s = (s \<noteq> [])"

subsection \<open>Keyword heuristics\<close>

definition classifyText :: "string \<Rightarrow> string" where
  "classifyText text =
     (let lowerText = toLowerCase text in
      if includes lowerText ''sports'' \<or> includes lowerText ''game'' \<or> includes lowerText ''team''
      then ''Sports''
      else if includes lowerText ''tech'' \<or> includes lowerText ''software''
              \<or> includes lowerText ''computer''
      then ''Technology''
      else if includes lowerText ''business'' \<or> includes lowerText ''market''
              \<or> includes lowerText ''economy''
      then ''Business''
      else if includes lowerText ''health'' \<or> includes lowerText ''medical''
              \<or> includes lowerText ''doctor''
      then ''Health''
      else ''General'')"

definition positiveWords :: "string list" where
  "positiveWords =
     [''good'', ''great'', ''excellent'', ''amazing'', ''love'', ''wonderful'', ''best'', ''happy'']"

definition negativeWords :: "string list" where
  "negativeWords =
     [''bad'', ''terrible'', ''awful'', ''hate'', ''worst'', ''sad'', ''poor'', ''disappointing'']"

definition analyzeSentiment :: "string \<Rightarrow> string" where
  "analyzeSentiment text =
     (let lowerText = toLowerCase text;
          hasPositive = list_ex (\<lambda>word. includes lowerText word) positiveWords;
          hasNegative = list_ex (\<lambda>word. includes lowerText word) negativeWords
      in if hasPositive \<and> \<not> hasNegative then ''Positive''
         else if hasNegative \<and> \<not> hasPositive then ''Negative''
         else ''Neutral'')"

definition summarizeText :: "string \<Rightarrow> string" where
  "summarizeText text =
     (let words = split (CHR '' '') text in
      if length words \<le> 10 then text
      else join '' '' (slice 0 10 words) @ ''...'')"

subsection \<open>Regular expressions\<close>

text \<open>
  The syntax of the patterns that the program uses: literal characters, character classes
  (with ranges and the escape \<^verbatim>\<open>\s\<close>, possibly negated), the assertion \<^verbatim>\<open>\b\<close>, sequencing
  and greedy quantifiers \<^verbatim>\<open>{min,max}\<close> (\<^verbatim>\<open>?\<close>, \<^verbatim>\<open>*\<close>, \<^verbatim>\<open>+\<close> and \<^verbatim>\<open>{2,}\<close> are instances;
  no upper bound is \<^term>\<open>None\<close>). A group \<^verbatim>\<open>(?:...)\<close> is the tree structure itself.
\<close>

datatype class_item = Range char char | Single char | WhiteSpaceEscape

datatype regex =
    Empty
  | Chr char
  | Class bool "class_item list"
  | WordBoundary
  | Cat regex regex
  | Repeat nat "nat option" regex

fun seq :: "regex list \<Rightarrow> regex" where
  "seq [] = Empty"
| "seq [r] = r"
| "seq (r # q # rs) = Cat r (seq (q # rs))"

fun in_item :: "class_item \<Rightarrow> char \<Rightarrow> bool" where
  "in_item (Range lo hi) c = (unit_code lo \<le> unit_code c \<and> unit_code c \<le> unit_code hi)"
| "in_item (Single d) c = (c = d)"
| "in_item WhiteSpaceEscape c = isWhiteSpace c"

text \<open>The word characters of \<^verbatim>\<open>\b\<close> are \<^verbatim>\<open>[A-Za-z0-9_]\<close>.\<close>

definition isWordChar :: "char \<Rightarrow> bool" where
  "isWordChar c =
     list_ex (\<lambda>it. in_item it c)
       [Range (CHR ''a'') (CHR ''z''), Range (CHR ''A'') (CHR ''Z''),
        Range (CHR ''0'') (CHR ''9''), Single (CHR ''_'')]"

text \<open>
  \<^verbatim>\<open>\b\<close> holds at index \<open>i\<close> when exactly one of the characters at \<open>i - 1\<close> and \<open>i\<close> is a
  word character; an index outside the string has no word character.
\<close>

definition atWordBoundary :: "string \<Rightarrow> nat \<Rightarrow> bool" where
  "atWordBoundary s i =
     (let a = (0 < i \<and> i - 1 < length s \<and> isWordChar (s ! (i - 1)));
          b = (i < length s \<and> isWordChar (s ! i))
      in a \<noteq> b)"

text \<open>
  The backtracking matcher of the language, as the list of the end indices that a pattern
  can reach from index \<open>i\<close>, in the order in which backtracking tries them: the head of
  the list is the match that the engine reports.

  \<open>rep m len mn mx i\<close> is the greedy quantifier over a body with matcher \<open>m\<close> on a string of
  length \<open>len\<close>: one more round of the body first (a round that consumes nothing is
  rejected once the minimum is reached), then, only when the minimum is reached, stopping
  at \<open>i\<close>. The test \<open>i \<le> j \<and> j \<le> len\<close> on an end index \<open>j\<close> of the body makes the
  recursion well-founded; \<open>rmatch_Repeat\<close> below shows that it never fails for the
  matchers it is used on.
\<close>

function rep :: "(nat \<Rightarrow> nat list) \<Rightarrow> nat \<Rightarrow> nat \<Rightarrow> nat option \<Rightarrow> nat \<Rightarrow> nat list" where
  "rep m len mn mx i =
     (if mx = Some 0 then [i]
      else concat (map (\<lambda>j. if i \<le> j \<and> j \<le> len \<and> \<not> (mn = 0 \<and> j = i)
                             then rep m len (mn - 1) (map_option (\<lambda>k. k - 1) mx) j
                             else [])
                       (m i))
           @ (if mn = 0 then [i] else []))"
  by pat_completeness auto
termination
  by (relation "measures [\<lambda>(m, len, mn, mx, i). len - i, \<lambda>(m, len, mn, mx, i). mn]") auto

declare rep.simps [simp del]

primrec rmatch :: "regex \<Rightarrow> string \<Rightarrow> nat \<Rightarrow> nat list" where
  "rmatch Empty s i = [i]"
| "rmatch (Chr c) s i = (if i < length s \<and> s ! i = c then [i + 1] else [])"
| "rmatch (Class negated items) s i =
     (if i < length s \<and> (list_ex (\<lambda>it. in_item it (s ! i)) items \<noteq> negated) then [i + 1]
      else [])"
| "rmatch WordBoundary s i = (if atWordBoundary s i then [i] else [])"
| "rmatch (Cat a b) s i = concat (map (rmatch b s) (rmatch a s i))"
| "rmatch (Repeat mn mx r) s i = rep (rmatch r s) (length s) mn mx i"

text \<open>
  \<^verbatim>\<open>RegExp.prototype.exec\<close> of a global pattern: the first index from \<open>lastIndex\<close> on at
  which the pattern matches, with the end of the match there.
\<close>

function regexExec :: "regex \<Rightarrow> string \<Rightarrow> nat \<Rightarrow> (nat \<times> nat) option" where
  "regexExec r s lastIndex =
     (if length s < lastIndex then None
      else (case rmatch r s lastIndex of
              [] \<Rightarrow> regexExec r s (lastIndex + 1)
            | e # _ \<Rightarrow> Some (lastIndex, e)))"
  by pat_completeness auto
termination
  by (relation "measure (\<lambda>(r, s, lastIndex). length s + 1 - lastIndex)") auto

declare regexExec.simps [simp del]

lemma rep_bounds:
  "i \<le> len \<Longrightarrow> j \<in> set (rep m len mn mx i) \<Longrightarrow> i \<le> j \<and> j \<le> len"
proof (induction m len mn mx i arbitrary: j rule: rep.induct)
  case (1 m len mn mx i)
  show ?case
  proof (cases "mx = Some 0")
    case True
    with "1.prems" show ?thesis by (simp add: rep.simps)
  next
    case False
    from "1.prems"(2) False
    consider (more) k where "k \<in> set (m i)" "i \<le> k" "k \<le> len" "\<not> (mn = 0 \<and> k = i)"
        "j \<in> set (rep m len (mn - 1) (map_option (\<lambda>k. k - 1) mx) k)"
      | (stop) "j = i"
      by (subst (asm) rep.simps) (auto split: if_splits)
    then show ?thesis
    proof cases
      case more
      from "1.IH"[OF False more(1) _ more(3) more(5)] more(2,3,4)
      show ?thesis by auto
    next
      case stop
      with "1.prems" show ?thesis by simp
    qed
  qed
qed

lemma rmatch_bounds:
  "i \<le> length s \<Longrightarrow> j \<in> set (rmatch r s i) \<Longrightarrow> i \<le> j \<and> j \<le> length s"
proof (induction r arbitrary: i j)
  case Empty
  then show ?case by simp
next
  case (Chr c)
  then show ?case by (simp split: if_splits)
next
  case (Class negated items)
  then show ?case by (simp split: if_splits)
next
  case WordBoundary
  then show ?case by (simp split: if_splits)
next
  case (Cat a b)
  from Cat.prems(2) obtain k where k: "k \<in> set (rmatch a s i)" "j \<in> set (rmatch b s k)"
    by auto
  from Cat.IH(1)[OF Cat.prems(1) k(1)] have "i \<le> k" "k \<le> length s" by simp_all
  with Cat.IH(2)[OF _ k(2)] show ?case by simp
next
  case (Repeat mn mx r)
  from Repeat.prems have "j \<in> set (rep (rmatch r s) (length s) mn mx i)" by simp
  with rep_bounds[OF Repeat.prems(1)] show ?case by blast
qed

lemma regexExec_bounds:
  "regexExec r s lastIndex = Some (b, e) \<Longrightarrow> lastIndex \<le> b \<and> b \<le> e \<and> e \<le> length s"
proof (induction r s lastIndex rule: regexExec.induct)
  case (1 r s lastIndex)
  show ?case
  proof (cases "rmatch r s lastIndex")
    case Nil
    from "1.prems" have "(if length s < lastIndex then None
        else case rmatch r s lastIndex of [] \<Rightarrow> regexExec r s (lastIndex + 1)
             | e # _ \<Rightarrow> Some (lastIndex, e)) = Some (b, e)"
      by (subst regexExec.simps[symmetric])
    with Nil have "\<not> length s < lastIndex"
      and "regexExec r s (lastIndex + 1) = Some (b, e)"
      by (simp_all split: if_splits)
    with "1.IH" Nil show ?thesis by fastforce
  next
    case (Cons e' es)
    from "1.prems" have "(if length s < lastIndex then None
        else case rmatch r s lastIndex of [] \<Rightarrow> regexExec r s (lastIndex + 1)
             | e # _ \<Rightarrow> Some (lastIndex, e)) = Some (b, e)"
      by (subst regexExec.simps[symmetric])
    with Cons have le: "lastIndex \<le> length s" and eq: "b = lastIndex" "e = e'"
      by (simp_all split: if_splits)
    from Cons have "e' \<in> set (rmatch r s lastIndex)" by simp
    with rmatch_bounds[OF le] eq show ?thesis by blast
  qed
qed

text \<open>
  \<^verbatim>\<open>String.prototype.match\<close> with a global pattern: the matched substrings from left to
  right, each search starting where the last match ended (one further after an empty
  match), and \<^verbatim>\<open>null\<close> (\<^term>\<open>None\<close>) when there is no match.
\<close>

function matchLoop :: "regex \<Rightarrow> string \<Rightarrow> nat \<Rightarrow> string list" where
  "matchLoop r s lastIndex =
     (case regexExec r s lastIndex of
        None \<Rightarrow> []
      | Some (b, e) \<Rightarrow> slice b e s # matchLoop r s (if e = b then e + 1 else e))"
  by pat_completeness auto
termination
proof (relation "measure (\<lambda>(r, s, lastIndex). length s + 1 - lastIndex)")
  fix r :: regex and s :: string and lastIndex :: nat and x2 x y
  assume "regexExec r s lastIndex = Some x2" and "(x, y) = x2"
  then have "lastIndex \<le> x \<and> x \<le> y \<and> y \<le> length s"
    using regexExec_bounds[of r s lastIndex x y] by simp
  then show "((r, s, if y = x then y + 1 else y), r, s, lastIndex)
               \<in> measure (\<lambda>(r, s, lastIndex). length s + 1 - lastIndex)"
    by auto
qed simp

declare matchLoop.simps [simp del]

definition match :: "regex \<Rightarrow> string \<Rightarrow> string list option" where
  "match r s = (case matchLoop r s 0 of [] \<Rightarrow> None | m # ms \<Rightarrow> Some (m # ms))"

subsection \<open>Entity extraction\<close>

record entity =
  "text" :: string
  type :: string

text \<open>\<^verbatim>\<open>/\b[A-Za-z0-9._%+-]+@[A-Za-z0-9.-]+\.[A-Z|a-z]{2,}\b/g\<close>\<close>

definition emailRegex :: regex where
  "emailRegex =
     seq [WordBoundary,
          Repeat 1 None (Class False
            [Range (CHR ''A'') (CHR ''Z''), Range (CHR ''a'') (CHR ''z''),
             Range (CHR ''0'') (CHR ''9''), Single (CHR ''.''), Single (CHR ''_''),
             Single (CHR ''%''), Single (CHR ''+''), Single (CHR ''-'')]),
          Chr (CHR ''@''),
          Repeat 1 None (Class False
            [Range (CHR ''A'') (CHR ''Z''), Range (CHR ''a'') (CHR ''z''),
             Range (CHR ''0'') (CHR ''9''), Single (CHR ''.''), Single (CHR ''-'')]),
          Chr (CHR ''.''),
          Repeat 2 None (Class False
            [Range (CHR ''A'') (CHR ''Z''), Single (CHR ''|''), Range (CHR ''a'') (CHR ''z'')]),
          WordBoundary]"

text \<open>\<^verbatim>\<open>/https?:\/\/[^\s]+/g\<close>\<close>

definition urlRegex :: regex where
  "urlRegex =
     seq [Chr (CHR ''h''), Chr (CHR ''t''), Chr (CHR ''t''), Chr (CHR ''p''),
          Repeat 0 (Some 1) (Chr (CHR ''s'')),
          Chr (CHR '':''), Chr (CHR ''/''), Chr (CHR ''/''),
          Repeat 1 None (Class True [WhiteSpaceEscape])]"

text \<open>\<^verbatim>\<open>/\b[A-Z][a-z]+(?:\s+[A-Z][a-z]+)*\b/g\<close>\<close>

definition capitalizedRegex :: regex where
  "capitalizedRegex =
     seq [WordBoundary,
          Class False [Range (CHR ''A'') (CHR ''Z'')],
          Repeat 1 None (Class False [Range (CHR ''a'') (CHR ''z'')]),
          Repeat 0 None
            (seq [Repeat 1 None (Class False [WhiteSpaceEscape]),
                  Class False [Range (CHR ''A'') (CHR ''Z'')],
                  Repeat 1 None (Class False [Range (CHR ''a'') (CHR ''z'')])]),
          WordBoundary]"

text \<open>
  The array \<^verbatim>\<open>entities\<close> grows by \<^verbatim>\<open>push\<close>; each \<^verbatim>\<open>if\<close> tests the result of \<^verbatim>\<open>match\<close>
  against \<^verbatim>\<open>null\<close>. The parameter \<^verbatim>\<open>text\<close> is written \<open>txt\<close>, since \<open>text\<close> is the field.
\<close>

definition extractEntities :: "string \<Rightarrow> entity list" where
  "extractEntities txt =
     (let entities = [];
          emails = match emailRegex txt;
          entities = (case emails of
                        None \<Rightarrow> entities
                      | Some ms \<Rightarrow> entities @ map (\<lambda>email. \<lparr>text = email, type = ''EMAIL''\<rparr>) ms);
          urls = match urlRegex txt;
          entities = (case urls of
                        None \<Rightarrow> entities
                      | Some ms \<Rightarrow> entities @ map (\<lambda>url. \<lparr>text = url, type = ''URL''\<rparr>) ms);
          capitalizedWords = match capitalizedRegex txt;
          entities = (case capitalizedWords of
                        None \<Rightarrow> entities
                      | Some ms \<Rightarrow>
                          entities @ map (\<lambda>word. \<lparr>text = word, type = ''PERSON''\<rparr>) (slice 0 3 ms))
      in entities)"

subsection \<open>The request handler\<close>

text \<open>
  The value that \<^verbatim>\<open>await req.json()\<close> produces is a JSON value. The properties of an object
  are listed once per key. Numbers are reals here; the rounding of the floating-point
  operations is not part of the model.
\<close>

datatype json =
    JNull
  | JBool bool
  | JNum real
  | JStr string
  | JArr "json list"
  | JObj "(string \<times> json) list"

text \<open>
  Reading a property named \<open>k\<close> of a value that is not \<^verbatim>\<open>null\<close>, for the three keys that
  the handler destructures (\<^verbatim>\<open>task_id\<close>, \<^verbatim>\<open>file_content\<close>, \<^verbatim>\<open>annotation_type\<close>): only an
  object can have them, every other value gives \<^verbatim>\<open>undefined\<close> (\<^term>\<open>None\<close>).
\<close>

fun getProp :: "json \<Rightarrow> string \<Rightarrow> json option" where
  "getProp (JObj props) k = map_of props k"
| "getProp v k = None"

text \<open>
  A request, as far as the handler looks at it: its method, and what \<^verbatim>\<open>await req.json()\<close>
  does, which is either to throw an error with some message (\<^term>\<open>Inl\<close>) or to give the
  parsed body.
\<close>

record request =
  "method" :: string
  json_body :: "string + json"

text \<open>
  An error object, with its \<^verbatim>\<open>message\<close>. Inside the \<^verbatim>\<open>try\<close> block the engine throws a
  \<^verbatim>\<open>TypeError\<close> at two places: destructuring \<^verbatim>\<open>null\<close>, and calling \<^verbatim>\<open>split\<close> on a
  \<^verbatim>\<open>file_content\<close> that is not a string (missing, \<^verbatim>\<open>null\<close>, or a value without that
  method). The wording of these messages belongs to the engine, so the handler takes it
  as the parameter \<open>typeErrorMessage\<close>.
\<close>

datatype js_error = JsError (message: string)

datatype type_error = DestructureNull | SplitOfNonString "json option"

text \<open>
  One object per row; its shape depends on the branch of the \<^verbatim>\<open>switch\<close>. The field
  \<^verbatim>\<open>text\<close> of these objects is written \<open>text'\<close>.
\<close>

datatype annotationResult =
    Classification (text': string) (category: string) (confidence: real)
  | Sentiment (text': string) (sentiment: string) (score: real)
  | Entities (text': string) (entities: "entity list")
  | Summary (text': string) (summary: string)
  | Processed (text': string) (processed: bool)

text \<open>
  The \<^verbatim>\<open>switch\<close> on \<^verbatim>\<open>annotation_type\<close> (compared with \<^verbatim>\<open>===\<close>, so a value that is not
  one of the four strings takes the default branch). \<^verbatim>\<open>Math.random\<close> is the sequence
  \<open>random\<close> of the numbers it returns during the call; \<open>n\<close> counts the draws made so far
  and is returned updated.
\<close>

definition switch :: "(nat \<Rightarrow> real) \<Rightarrow> json option \<Rightarrow> string \<Rightarrow> nat \<Rightarrow> annotationResult \<times> nat" where
  "switch random annotation_type row n =
     (if annotation_type = Some (JStr ''text-classification'') then
        (Classification row (classifyText row) (random n * 0.3 + 0.7), n + 1)
      else if annotation_type = Some (JStr ''sentiment-analysis'') then
        (Sentiment row (analyzeSentiment row) (random n * 2 - 1), n + 1)
      else if annotation_type = Some (JStr ''named-entity-recognition'') then
        (Entities row (extractEntities row), n)
      else if annotation_type = Some (JStr ''summarization'') then
        (Summary row (summarizeText row), n)
      else (Processed row True, n))"

text \<open>The \<^verbatim>\<open>for\<close> loop, from index \<open>i\<close> with the array \<open>annotations\<close> built so far.\<close>

function forLoop ::
  "(nat \<Rightarrow> real) \<Rightarrow> json option \<Rightarrow> string list \<Rightarrow> nat \<Rightarrow> nat \<Rightarrow> annotationResult list
     \<Rightarrow> annotationResult list" where
  "forLoop random annotation_type rows i n annotations =
     (if i < min (length rows) 100 then
        (let row = rows ! i;
             (annotationResult, n') = switch random annotation_type row n
         in forLoop random annotation_type rows (i + 1) n' (annotations @ [annotationResult]))
      else annotations)"
  by pat_completeness auto
termination
  by (relation "measure (\<lambda>(random, annotation_type, rows, i, n, annotations).
        min (length rows) 100 - i)") auto

declare forLoop.simps [simp del]

text \<open>
  The object that is passed to \<^verbatim>\<open>JSON.stringify\<close> for the body of the response (a key
  whose value is \<^verbatim>\<open>undefined\<close> is left out of the text), or no body.
\<close>

datatype body =
    NoBody
  | SuccessBody (success: bool) (task_id: "json option")
      (annotations: "annotationResult list") (total_processed: nat)
  | FailureBody (success: bool) (error: string)

record response =
  status :: nat
  headers :: "(string \<times> string) list"
  body :: body

definition corsHeaders :: "(string \<times> string) list" where
  "corsHeaders =
     [(''Access-Control-Allow-Origin'', ''*''),
      (''Access-Control-Allow-Methods'', ''GET, POST, PUT, DELETE, OPTIONS''),
      (''Access-Control-Allow-Headers'', ''Content-Type, Authorization, X-Client-Info, Apikey'')]"

text \<open>
  The \<^verbatim>\<open>try\<close> block: the error thrown (\<^term>\<open>Inl\<close>) or the response returned. The status
  of a response made without one is 200.
\<close>

definition tryBlock ::
  "(type_error \<Rightarrow> string) \<Rightarrow> (nat \<Rightarrow> real) \<Rightarrow> request \<Rightarrow> js_error + response" where
  "tryBlock typeErrorMessage random req =
     (case json_body req of
        Inl m \<Rightarrow> Inl (JsError m)
      | Inr v \<Rightarrow>
          if v = JNull then Inl (JsError (typeErrorMessage DestructureNull))
          else
            (let task_id = getProp v ''task_id'';
                 file_content = getProp v ''file_content'';
                 annotation_type = getProp v ''annotation_type''
             in case file_content of
                  Some (JStr content) \<Rightarrow>
                    (let rows = filter (\<lambda>row. truthy (trim row)) (split (CHR 0x0A) content);
                         annotations = forLoop random annotation_type rows 0 0 []
                     in Inr \<lparr>status = 200,
                             headers = corsHeaders @ [(''Content-Type'', ''application/json'')],
                             body = SuccessBody True task_id annotations (length annotations)\<rparr>)
                | _ \<Rightarrow> Inl (JsError (typeErrorMessage (SplitOfNonString file_content)))))"

definition handler :: "(type_error \<Rightarrow> string) \<Rightarrow> (nat \<Rightarrow> real) \<Rightarrow> request \<Rightarrow> response" where
  "handler typeErrorMessage random req =
     (if method req = ''OPTIONS'' then
        \<lparr>status = 200, headers = corsHeaders, body = NoBody\<rparr>
      else
        (case tryBlock typeErrorMessage random req of
           Inr resp \<Rightarrow> resp
         | Inl err \<Rightarrow>
             \<lparr>status = 400,
              headers = corsHeaders @ [(''Content-Type'', ''application/json'')],
              body = FailureBody False (message err)\<rparr>))"

subsection \<open>Notions of the specification\<close>

text \<open>
  A text mentions a keyword set when its lower-cased form has one of the keywords as a
  contiguous substring (\<^const>\<open>sublist\<close>).
\<close>

definition mentions :: "string set \<Rightarrow> string \<Rightarrow> bool" where
  "mentions keywords t = (\<exists>w \<in> keywords. sublist w (toLowerCase t))"

definition positive_keywords :: "string set" where
  "positive_keywords =
     {''good'', ''great'', ''excellent'', ''amazing'', ''love'', ''wonderful'', ''best'', ''happy''}"

definition negative_keywords :: "string set" where
  "negative_keywords =
     {''bad'', ''terrible'', ''awful'', ''hate'', ''worst'', ''sad'', ''poor'', ''disappointing''}"

text \<open>
  The number of draws from \<^verbatim>\<open>Math.random\<close> that one row takes: one in the two branches
  that attach a random number, none in the others.
\<close>

definition draws :: "json option \<Rightarrow> nat" where
  "draws annotation_type =
     (if annotation_type = Some (JStr ''text-classification'')
         \<or> annotation_type = Some (JStr ''sentiment-analysis'') then 1 else 0)"

section \<open>Properties\<close>

subsection \<open>The string methods\<close>

lemma startsWith_prefix: "startsWith s p \<longleftrightarrow> prefix p s"
  by (induction s p rule: startsWith.induct) auto

lemma includes_sublist: "includes s sub \<longleftrightarrow> sublist sub s"
proof (induction s)
  case Nil
  then show ?case by auto
next
  case (Cons c cs)
  then show ?case
    by (cases sub) (simp_all add: startsWith_prefix sublist_Cons_right del: startsWith.simps)
qed

lemma split_not_Nil: "split sep s \<noteq> []"
  by (induction s) (auto simp: Let_def)

lemma join_split: "join [sep] (split sep s) = s"
proof (induction s)
  case Nil
  then show ?case by simp
next
  case (Cons c cs)
  obtain w ws where r: "split sep cs = w # ws"
    using split_not_Nil[of sep cs] by (cases "split sep cs") auto
  with Cons show ?case by (cases ws) (auto simp: Let_def)
qed

text \<open>A row is dropped by the filter exactly when all of it is white space.\<close>

lemma trim_empty_iff: "trim s = [] \<longleftrightarrow> list_all isWhiteSpace s"
proof
  assume "trim s = []"
  then have all: "\<forall>c \<in> set (dropWhile isWhiteSpace s). isWhiteSpace c"
    by (simp add: trim_def dropWhile_eq_Nil_conv)
  have "dropWhile isWhiteSpace s = []"
  proof (rule ccontr)
    assume ne: "dropWhile isWhiteSpace s \<noteq> []"
    then have "\<not> isWhiteSpace (hd (dropWhile isWhiteSpace s))"
      by (rule hd_dropWhile)
    moreover from ne have "hd (dropWhile isWhiteSpace s) \<in> set (dropWhile isWhiteSpace s)"
      by (rule hd_in_set)
    ultimately show False using all by blast
  qed
  then show "list_all isWhiteSpace s"
    by (simp add: list_all_iff)
next
  assume "list_all isWhiteSpace s"
  then have d: "dropWhile isWhiteSpace s = []"
    by (simp add: list_all_iff)
  show "trim s = []"
    unfolding trim_def d by simp
qed

lemma truthy_trim: "truthy (trim row) \<longleftrightarrow> \<not> list_all isWhiteSpace row"
  by (simp add: truthy_def trim_empty_iff)

lemma set_split: "row \<in> set (split sep s) \<Longrightarrow> set row \<subseteq> set s"
proof (induction s arbitrary: row)
  case Nil
  then show ?case by simp
next
  case (Cons c cs)
  obtain w ws where r: "split sep cs = w # ws"
    using split_not_Nil[of sep cs] by (cases "split sep cs") auto
  have w: "set w \<subseteq> set cs" and ws: "\<And>x. x \<in> set ws \<Longrightarrow> set x \<subseteq> set cs"
    using Cons.IH r by simp_all
  from Cons.prems r have "row = [] \<or> row = c # w \<or> row = w \<or> row \<in> set ws"
    by (auto simp: Let_def split: if_splits)
  with w ws show ?case by auto
qed

lemma rows_of_blank_content:
  assumes "list_all isWhiteSpace content"
  shows "filter (\<lambda>row. truthy (trim row)) (split sep content) = []"
proof -
  have "list_all isWhiteSpace row" if "row \<in> set (split sep content)" for row
    using set_split[OF that] assms by (auto simp: list_all_iff)
  then show ?thesis by (simp add: filter_empty_conv truthy_trim)
qed

subsection \<open>The matcher\<close>

text \<open>
  On a matcher whose end indices lie between the start index and the end of the string,
  the extra test in \<^const>\<open>rep\<close> is always passed: the quantifier is the one of the language.
\<close>

lemma rep_unguarded:
  assumes m: "\<And>i j. i \<le> len \<Longrightarrow> j \<in> set (m i) \<Longrightarrow> i \<le> j \<and> j \<le> len"
    and i: "i \<le> len"
  shows "rep m len mn mx i =
     (if mx = Some 0 then [i]
      else concat (map (\<lambda>j. if mn = 0 \<and> j = i then []
                             else rep m len (mn - 1) (map_option (\<lambda>k. k - 1) mx) j)
                       (m i))
           @ (if mn = 0 then [i] else []))"
proof -
  have "map (\<lambda>j. if i \<le> j \<and> j \<le> len \<and> \<not> (mn = 0 \<and> j = i)
                  then rep m len (mn - 1) (map_option (\<lambda>k. k - 1) mx) j else []) (m i)
      = map (\<lambda>j. if mn = 0 \<and> j = i then []
                  else rep m len (mn - 1) (map_option (\<lambda>k. k - 1) mx) j) (m i)"
    using m[OF i] by (intro map_cong) auto
  then show ?thesis by (subst rep.simps) (simp only:)
qed

lemma rmatch_Repeat:
  assumes "i \<le> length s"
  shows "rmatch (Repeat mn mx r) s i =
     (if mx = Some 0 then [i]
      else concat (map (\<lambda>j. if mn = 0 \<and> j = i then []
                             else rmatch (Repeat (mn - 1) (map_option (\<lambda>k. k - 1) mx) r) s j)
                       (rmatch r s i))
           @ (if mn = 0 then [i] else []))"
proof -
  have "rmatch (Repeat mn mx r) s i = rep (rmatch r s) (length s) mn mx i"
    and "\<And>j. rmatch (Repeat (mn - 1) (map_option (\<lambda>k. k - 1) mx) r) s j
           = rep (rmatch r s) (length s) (mn - 1) (map_option (\<lambda>k. k - 1) mx) j"
    by simp_all
  then show ?thesis
    using rep_unguarded[of "length s" "rmatch r s" i mn mx, OF rmatch_bounds assms]
    by (simp only:)
qed

subsection \<open>The heuristics\<close>

text \<open>
  C2: for every input, \<^const>\<open>classifyText\<close> returns one of Sports, Technology, Business, Health
  and General; the category is decided by which keyword sets the lower-cased text
  mentions, the first of Sports, Technology, Business, Health that is mentioned wins,
  and General is returned only when none is.
\<close>

theorem classifyText_spec:
  "classifyText t \<in> {''Sports'', ''Technology'', ''Business'', ''Health'', ''General''}
   \<and> classifyText t =
       (if mentions {''sports'', ''game'', ''team''} t then ''Sports''
        else if mentions {''tech'', ''software'', ''computer''} t then ''Technology''
        else if mentions {''business'', ''market'', ''economy''} t then ''Business''
        else if mentions {''health'', ''medical'', ''doctor''} t then ''Health''
        else ''General'')"
  unfolding classifyText_def Let_def includes_sublist mentions_def by simp

theorem classifyText_spec_witness:
  "classifyText ''Doctor joins TECH Team'' = ''Sports''
   \<and> classifyText ''Doctor joins TECH firm'' = ''Technology''
   \<and> classifyText ''Doctor on the stock market'' = ''Business''
   \<and> classifyText ''Doctor on call'' = ''Health''
   \<and> classifyText ''Nothing here'' = ''General''"
proof -
  have 1: "mentions {''sports'', ''game'', ''team''} ''Doctor joins TECH Team''"
    by code_simp
  have 2: "\<not> mentions {''sports'', ''game'', ''team''} ''Doctor joins TECH firm''"
    "mentions {''tech'', ''software'', ''computer''} ''Doctor joins TECH firm''"
    by code_simp+
  have 3: "\<not> mentions {''sports'', ''game'', ''team''} ''Doctor on the stock market''"
    "\<not> mentions {''tech'', ''software'', ''computer''} ''Doctor on the stock market''"
    "mentions {''business'', ''market'', ''economy''} ''Doctor on the stock market''"
    by code_simp+
  have 4: "\<not> mentions {''sports'', ''game'', ''team''} ''Doctor on call''"
    "\<not> mentions {''tech'', ''software'', ''computer''} ''Doctor on call''"
    "\<not> mentions {''business'', ''market'', ''economy''} ''Doctor on call''"
    "mentions {''health'', ''medical'', ''doctor''} ''Doctor on call''"
    by code_simp+
  have 5: "\<not> mentions {''sports'', ''game'', ''team''} ''Nothing here''"
    "\<not> mentions {''tech'', ''software'', ''computer''} ''Nothing here''"
    "\<not> mentions {''business'', ''market'', ''economy''} ''Nothing here''"
    "\<not> mentions {''health'', ''medical'', ''doctor''} ''Nothing here''"
    by code_simp+
  show ?thesis
    using classifyText_spec[of "''Doctor joins TECH Team''"]
      classifyText_spec[of "''Doctor joins TECH firm''"]
      classifyText_spec[of "''Doctor on the stock market''"]
      classifyText_spec[of "''Doctor on call''"]
      classifyText_spec[of "''Nothing here''"]
    by (simp only: 1 2 3 4 5 if_True if_False simp_thms)
qed

text \<open>
  C3: \<^const>\<open>analyzeSentiment\<close> returns Neutral whenever the lower-cased text mentions both a
  positive and a negative keyword, or neither; it returns Positive exactly when only a
  positive keyword is mentioned, and Negative exactly when only a negative one is.
\<close>

theorem analyzeSentiment_spec:
  "((mentions positive_keywords t \<and> mentions negative_keywords t)
      \<or> (\<not> mentions positive_keywords t \<and> \<not> mentions negative_keywords t)
     \<longrightarrow> analyzeSentiment t = ''Neutral'')
   \<and> (analyzeSentiment t = ''Positive''
        \<longleftrightarrow> mentions positive_keywords t \<and> \<not> mentions negative_keywords t)
   \<and> (analyzeSentiment t = ''Negative''
        \<longleftrightarrow> mentions negative_keywords t \<and> \<not> mentions positive_keywords t)"
proof -
  have p: "list_ex (\<lambda>word. includes (toLowerCase t) word) positiveWords
             = mentions positive_keywords t"
    unfolding mentions_def positive_keywords_def positiveWords_def includes_sublist by simp
  have n: "list_ex (\<lambda>word. includes (toLowerCase t) word) negativeWords
             = mentions negative_keywords t"
    unfolding mentions_def negative_keywords_def negativeWords_def includes_sublist by simp
  have "analyzeSentiment t =
      (if mentions positive_keywords t \<and> \<not> mentions negative_keywords t then ''Positive''
       else if mentions negative_keywords t \<and> \<not> mentions positive_keywords t then ''Negative''
       else ''Neutral'')"
    unfolding analyzeSentiment_def Let_def p n ..
  then show ?thesis by auto
qed

theorem analyzeSentiment_spec_witness:
  "analyzeSentiment ''Not BAD, really good'' = ''Neutral''
   \<and> analyzeSentiment ''A day'' = ''Neutral''
   \<and> analyzeSentiment ''A Great day'' = ''Positive''
   \<and> analyzeSentiment ''The worst day'' = ''Negative''"
proof -
  have 1: "mentions positive_keywords ''Not BAD, really good''"
    "mentions negative_keywords ''Not BAD, really good''"
    by code_simp+
  have 2: "\<not> mentions positive_keywords ''A day''" "\<not> mentions negative_keywords ''A day''"
    by code_simp+
  have 3: "mentions positive_keywords ''A Great day''"
    "\<not> mentions negative_keywords ''A Great day''"
    by code_simp+
  have 4: "\<not> mentions positive_keywords ''The worst day''"
    "mentions negative_keywords ''The worst day''"
    by code_simp+
  show ?thesis
    using analyzeSentiment_spec[of "''Not BAD, really good''"]
      analyzeSentiment_spec[of "''A day''"]
      analyzeSentiment_spec[of "''A Great day''"]
      analyzeSentiment_spec[of "''The worst day''"]
    by (simp only: 1 2 3 4 simp_thms)
qed

text \<open>
  The entities come in three runs: the e-mail matches, the URL matches, and the first
  three capitalised matches.
\<close>

lemma extractEntities_parts:
  "extractEntities t =
     (case match emailRegex t of None \<Rightarrow> []
      | Some ms \<Rightarrow> map (\<lambda>email. \<lparr>text = email, type = ''EMAIL''\<rparr>) ms)
     @ (case match urlRegex t of None \<Rightarrow> []
        | Some ms \<Rightarrow> map (\<lambda>url. \<lparr>text = url, type = ''URL''\<rparr>) ms)
     @ (case match capitalizedRegex t of None \<Rightarrow> []
        | Some ms \<Rightarrow> map (\<lambda>word. \<lparr>text = word, type = ''PERSON''\<rparr>) (slice 0 3 ms))"
  by (cases "match emailRegex t"; cases "match urlRegex t"; cases "match capitalizedRegex t")
     (simp_all add: extractEntities_def Let_def)

lemma extractEntities_types:
  "set (map type (extractEntities t)) \<subseteq> {''EMAIL'', ''URL'', ''PERSON''}"
proof -
  have e: "set (map type (map (\<lambda>x. \<lparr>text = x, type = ''EMAIL''\<rparr>) ms))
      \<subseteq> {''EMAIL'', ''URL'', ''PERSON''}" for ms
    by (induction ms) simp_all
  have u: "set (map type (map (\<lambda>x. \<lparr>text = x, type = ''URL''\<rparr>) ms))
      \<subseteq> {''EMAIL'', ''URL'', ''PERSON''}" for ms
    by (induction ms) simp_all
  have p: "set (map type (map (\<lambda>x. \<lparr>text = x, type = ''PERSON''\<rparr>) ms))
      \<subseteq> {''EMAIL'', ''URL'', ''PERSON''}" for ms
    by (induction ms) simp_all
  have "set (map type (case m of None \<Rightarrow> [] | Some ms \<Rightarrow> map (\<lambda>x. \<lparr>text = x, type = ''EMAIL''\<rparr>) ms))
      \<subseteq> {''EMAIL'', ''URL'', ''PERSON''}" for m
    using e by (cases m) simp_all
  moreover have "set (map type (case m of None \<Rightarrow> [] | Some ms \<Rightarrow> map (\<lambda>x. \<lparr>text = x, type = ''URL''\<rparr>) ms))
      \<subseteq> {''EMAIL'', ''URL'', ''PERSON''}" for m
    using u by (cases m) simp_all
  moreover have "set (map type (case m of None \<Rightarrow> []
        | Some ms \<Rightarrow> map (\<lambda>x. \<lparr>text = x, type = ''PERSON''\<rparr>) (slice 0 3 ms)))
      \<subseteq> {''EMAIL'', ''URL'', ''PERSON''}" for m
    using p by (cases m) simp_all
  ultimately show ?thesis
    unfolding extractEntities_parts by (simp only: map_append set_append Un_subset_iff simp_thms)
qed

text \<open>
  C4: the four heuristics are total functions on strings: their models have no error
  result, since no operation in them can throw on a string, and the recursions of the
  matcher are shown to terminate above. On every input each of them returns a value of
  its kind (one of the five categories, one of the three labels, entities of the three
  types, the text itself or a text ending in three dots). On the empty string
  \<^const>\<open>classifyText\<close> returns General, \<^const>\<open>analyzeSentiment\<close> returns Neutral,
  \<^const>\<open>extractEntities\<close> returns the empty list and \<^const>\<open>summarizeText\<close> returns the input.
\<close>

theorem heuristics_total_with_defaults:
  "classifyText t \<in> {''Sports'', ''Technology'', ''Business'', ''Health'', ''General''}
   \<and> analyzeSentiment t \<in> {''Positive'', ''Negative'', ''Neutral''}
   \<and> set (map type (extractEntities t)) \<subseteq> {''EMAIL'', ''URL'', ''PERSON''}
   \<and> (summarizeText t = t \<or> (\<exists>p. summarizeText t = p @ ''...''))
   \<and> classifyText [] = ''General'' \<and> analyzeSentiment [] = ''Neutral''
   \<and> extractEntities [] = [] \<and> summarizeText [] = []"
proof -
  have "classifyText t \<in> {''Sports'', ''Technology'', ''Business'', ''Health'', ''General''}"
    by (simp add: classifyText_def Let_def)
  moreover have "analyzeSentiment t \<in> {''Positive'', ''Negative'', ''Neutral''}"
    by (simp add: analyzeSentiment_def Let_def)
  moreover note extractEntities_types[of t]
  moreover have "summarizeText t = t \<or> (\<exists>p. summarizeText t = p @ ''...'')"
    by (simp add: summarizeText_def Let_def)
  moreover have "classifyText [] = ''General''"
    by (simp add: classifyText_def toLowerCase_def)
  moreover have "analyzeSentiment [] = ''Neutral''"
    by (simp add: analyzeSentiment_def toLowerCase_def positiveWords_def negativeWords_def)
  moreover have "extractEntities [] = []"
    by code_simp
  moreover have "summarizeText [] = []"
    by (simp add: summarizeText_def)
  ultimately show ?thesis by (intro conjI)
qed

text \<open>
  C5: an input with at most 10 space-delimited tokens is returned unchanged, so
  \<^const>\<open>summarizeText\<close> is idempotent on it; an input with more tokens becomes its first 10
  tokens joined by one space, followed by three dots.
\<close>

theorem summarizeText_spec:
  "(length (split (CHR '' '') x) \<le> 10 \<longrightarrow>
      summarizeText x = x \<and> summarizeText (summarizeText x) = summarizeText x)
   \<and> (10 < length (split (CHR '' '') x) \<longrightarrow>
      summarizeText x = join '' '' (take 10 (split (CHR '' '') x)) @ ''...'')"
  by (simp add: summarizeText_def slice_def)

theorem summarizeText_spec_witness:
  "summarizeText (summarizeText ''one two three'') = summarizeText ''one two three''
   \<and> summarizeText ''a b c d e f g h i j k l'' = ''a b c d e f g h i j...''"
proof -
  have le: "length (split (CHR '' '') ''one two three'') \<le> 10" by code_simp
  have gt: "10 < length (split (CHR '' '') ''a b c d e f g h i j k l'')" by code_simp
  have j: "join '' '' (take 10 (split (CHR '' '') ''a b c d e f g h i j k l'')) @ ''...''
     = ''a b c d e f g h i j...''" by code_simp
  from summarizeText_spec[of "''one two three''"] le
    summarizeText_spec[of "''a b c d e f g h i j k l''"] gt j
  show ?thesis by simp
qed

text \<open>
  The entities of the example text. The pattern for URLs runs up to the next white space,
  so the comma after the address belongs to the match.
\<close>

lemma extractEntities_contact:
  "extractEntities ''contact a@b.com or https://x.io, Alice Smith'' =
     [\<lparr>text = ''a@b.com'', type = ''EMAIL''\<rparr>,
      \<lparr>text = ''https://x.io,'', type = ''URL''\<rparr>,
      \<lparr>text = ''Alice Smith'', type = ''PERSON''\<rparr>]"
  by code_simp

lemma extractEntities_persons:
  "length (filter (\<lambda>e. type e = ''PERSON'') (extractEntities t)) \<le> 3"
proof -
  let ?P = "\<lambda>e. type e = ''PERSON''"
  have e: "filter ?P (map (\<lambda>x. \<lparr>text = x, type = ''EMAIL''\<rparr>) ms) = []" for ms
    by (simp add: filter_empty_conv)
  have u: "filter ?P (map (\<lambda>x. \<lparr>text = x, type = ''URL''\<rparr>) ms) = []" for ms
    by (simp add: filter_empty_conv)
  have p: "length (filter ?P (map (\<lambda>x. \<lparr>text = x, type = ''PERSON''\<rparr>) (slice 0 3 ms))) \<le> 3"
    for ms
    by (simp add: slice_def)
  show ?thesis
    unfolding extractEntities_def Let_def
    by (simp only: e u p filter_append filter.simps append_Nil append_Nil2 list.size
        split: option.splits) simp
qed

text \<open>
  C6, as stated, asks for a URL entity with the text \<^verbatim>\<open>https://x.io\<close>: there is none.
\<close>

theorem extractEntities_example_counterexample:
  "\<lparr>text = ''https://x.io'', type = ''URL''\<rparr>
     \<notin> set (extractEntities ''contact a@b.com or https://x.io, Alice Smith'')"
  by (simp add: extractEntities_contact)

text \<open>
  C6, amended: on the example text \<^const>\<open>extractEntities\<close> returns exactly one EMAIL entity with
  the text \<^verbatim>\<open>a@b.com\<close>, exactly one URL entity with the text \<^verbatim>\<open>https://x.io,\<close> (the comma
  included), and one PERSON entity, \<^verbatim>\<open>Alice Smith\<close>; on every text it returns at most 3
  PERSON entities.
\<close>

theorem extractEntities_example:
  "extractEntities ''contact a@b.com or https://x.io, Alice Smith'' =
     [\<lparr>text = ''a@b.com'', type = ''EMAIL''\<rparr>,
      \<lparr>text = ''https://x.io,'', type = ''URL''\<rparr>,
      \<lparr>text = ''Alice Smith'', type = ''PERSON''\<rparr>]
   \<and> length (filter (\<lambda>e. type e = ''PERSON'') (extractEntities t)) \<le> 3"
  using extractEntities_contact extractEntities_persons by blast

subsection \<open>The loop and the handler\<close>

text \<open>
  The loop in closed form: row \<open>j\<close> is annotated by the \<^verbatim>\<open>switch\<close>, with the draws of the
  rows before it already taken; at most 100 rows are annotated.
\<close>

lemma switch_text: "text' (fst (switch random annotation_type row n)) = row"
  by (simp add: switch_def)

lemma switch_snd: "snd (switch random annotation_type row n) = n + draws annotation_type"
  by (simp add: switch_def draws_def)

lemma forLoop_closed:
  "forLoop random ty rows i n acc =
     acc @ map (\<lambda>j. fst (switch random ty (rows ! j) (n + (j - i) * draws ty)))
             [i..<min (length rows) 100]"
proof (induction random ty rows i n acc rule: forLoop.induct)
  case (1 random ty rows i n acc)
  let ?M = "min (length rows) 100"
  show ?case
  proof (cases "i < ?M")
    case False
    then have "forLoop random ty rows i n acc = acc"
      by (subst forLoop.simps) (simp only: if_False)
    moreover from False have "?M \<le> i" by linarith
    then have "[i..<?M] = []" by simp
    ultimately show ?thesis by (simp only: list.map append_Nil2)
  next
    case True
    obtain a n' where sw: "switch random ty (rows ! i) n = (a, n')"
      by (cases "switch random ty (rows ! i) n")
    from sw have a: "a = fst (switch random ty (rows ! i) n)" and n': "n' = n + draws ty"
      using switch_snd[of random ty "rows ! i" n] by simp_all
    have step: "forLoop random ty rows i n acc = forLoop random ty rows (i + 1) n' (acc @ [a])"
      using True sw by (subst forLoop.simps) simp
    have IH: "forLoop random ty rows (i + 1) n' (acc @ [a]) =
        (acc @ [a]) @ map (\<lambda>j. fst (switch random ty (rows ! j) (n' + (j - (i + 1)) * draws ty)))
                        [i + 1..<?M]"
      using "1.IH"[OF True refl sw[symmetric] refl] .
    have shift: "map (\<lambda>j. fst (switch random ty (rows ! j) (n' + (j - (i + 1)) * draws ty)))
                   [i + 1..<?M]
               = map (\<lambda>j. fst (switch random ty (rows ! j) (n + (j - i) * draws ty)))
                   [i + 1..<?M]"
    proof (intro map_cong refl)
      fix j assume "j \<in> set [i + 1..<?M]"
      then have "i < j" by simp
      then obtain d where d: "j = i + 1 + d"
        using less_iff_Suc_add[of i j] by auto
      have "n' + (j - (i + 1)) * draws ty = n + (j - i) * draws ty"
        unfolding n' d by (simp add: algebra_simps)
      then show "fst (switch random ty (rows ! j) (n' + (j - (i + 1)) * draws ty))
               = fst (switch random ty (rows ! j) (n + (j - i) * draws ty))"
        by simp
    qed
    have "[i..<?M] = i # [i + 1..<?M]"
      using True by (simp add: upt_conv_Cons)
    with step IH shift a show ?thesis by simp
  qed
qed

lemma forLoop_annotations:
  "forLoop random ty rows 0 0 [] =
     map (\<lambda>j. fst (switch random ty (rows ! j) (j * draws ty))) [0..<min (length rows) 100]"
  by (simp add: forLoop_closed)

lemma forLoop_length: "length (forLoop random ty rows 0 0 []) = min (length rows) 100"
  by (simp add: forLoop_annotations)

lemma forLoop_texts: "map text' (forLoop random ty rows 0 0 []) = take 100 rows"
proof -
  have "map text' (forLoop random ty rows 0 0 []) = map (\<lambda>j. rows ! j) [0..<min (length rows) 100]"
    by (simp add: forLoop_annotations switch_text comp_def)
  also have "\<dots> = take (min (length rows) 100) rows"
    by (rule nth_equalityI) auto
  also have "\<dots> = take 100 rows"
    by (simp add: min_def)
  finally show ?thesis .
qed

text \<open>
  The \<^verbatim>\<open>try\<close> block returns exactly when the body parses to a value whose
  \<^verbatim>\<open>file_content\<close> is a string, and throws otherwise.
\<close>

lemma tryBlock_success:
  assumes "json_body req = Inr v" and "getProp v ''file_content'' = Some (JStr content)"
  shows "tryBlock typeErrorMessage random req =
     Inr \<lparr>status = 200,
          headers = corsHeaders @ [(''Content-Type'', ''application/json'')],
          body = SuccessBody True (getProp v ''task_id'')
                   (forLoop random (getProp v ''annotation_type'')
                      (filter (\<lambda>row. truthy (trim row)) (split (CHR 0x0A) content)) 0 0 [])
                   (min (length (filter (\<lambda>row. truthy (trim row)) (split (CHR 0x0A) content))) 100)\<rparr>"
proof -
  from assms(2) have "v \<noteq> JNull" by auto
  with assms show ?thesis
    by (simp add: tryBlock_def Let_def forLoop_length)
qed

lemma tryBlock_throws:
  "(\<exists>err. tryBlock typeErrorMessage random req = Inl err) \<longleftrightarrow>
   \<not> (\<exists>v content. json_body req = Inr v \<and> getProp v ''file_content'' = Some (JStr content))"
  by (auto simp: tryBlock_def Let_def split: sum.splits option.splits json.splits)

lemma handler_success:
  assumes "method req \<noteq> ''OPTIONS''"
    and "json_body req = Inr v" and "getProp v ''file_content'' = Some (JStr content)"
  shows "handler typeErrorMessage random req =
     \<lparr>status = 200,
      headers = corsHeaders @ [(''Content-Type'', ''application/json'')],
      body = SuccessBody True (getProp v ''task_id'')
               (forLoop random (getProp v ''annotation_type'')
                  (filter (\<lambda>row. truthy (trim row)) (split (CHR 0x0A) content)) 0 0 [])
               (min (length (filter (\<lambda>row. truthy (trim row)) (split (CHR 0x0A) content))) 100)\<rparr>"
  using assms(1) tryBlock_success[OF assms(2,3)] by (simp add: handler_def)

lemma handler_success_body:
  assumes "body (handler typeErrorMessage random req) = SuccessBody s t anns k"
  shows "\<exists>v content. method req \<noteq> ''OPTIONS'' \<and> json_body req = Inr v
            \<and> getProp v ''file_content'' = Some (JStr content)"
proof (cases "method req = ''OPTIONS''")
  case True
  with assms show ?thesis by (simp add: handler_def)
next
  case False
  show ?thesis
  proof (cases "tryBlock typeErrorMessage random req")
    case (Inl err)
    with assms False show ?thesis by (simp add: handler_def)
  next
    case (Inr resp)
    then have "\<not> (\<exists>err. tryBlock typeErrorMessage random req = Inl err)" by simp
    with False show ?thesis unfolding tryBlock_throws by simp
  qed
qed

text \<open>
  C1: when the rows of \<^verbatim>\<open>file_content\<close> that are not empty after trimming number 150,
  the handler answers with status 200 and a success body with exactly 100 annotations and
  \<^verbatim>\<open>total_processed\<close> 100; annotation \<open>i\<close> is the one the \<^verbatim>\<open>switch\<close> makes from row \<open>i\<close> of the
  surviving rows (so its text is that row), and the rows from index 100 on leave no trace.
\<close>

theorem batch_of_150_rows:
  fixes content :: string
  defines "rows \<equiv> filter (\<lambda>row. truthy (trim row)) (split (CHR 0x0A) content)"
  assumes "method req \<noteq> ''OPTIONS''"
    and "json_body req = Inr v"
    and "getProp v ''file_content'' = Some (JStr content)"
    and "length rows = 150"
  shows "\<exists>anns.
      handler typeErrorMessage random req =
        \<lparr>status = 200,
         headers = corsHeaders @ [(''Content-Type'', ''application/json'')],
         body = SuccessBody True (getProp v ''task_id'') anns 100\<rparr>
      \<and> length anns = 100
      \<and> (\<forall>i<100. anns ! i = fst (switch random (getProp v ''annotation_type'') (rows ! i)
                                   (i * draws (getProp v ''annotation_type'')))
                  \<and> text' (anns ! i) = rows ! i)"
proof -
  let ?anns = "forLoop random (getProp v ''annotation_type'') rows 0 0 []"
  have m: "min (length rows) 100 = 100"
    using assms(5) by simp
  have "handler typeErrorMessage random req =
        \<lparr>status = 200,
         headers = corsHeaders @ [(''Content-Type'', ''application/json'')],
         body = SuccessBody True (getProp v ''task_id'') ?anns 100\<rparr>"
    using handler_success[OF assms(2,3,4), of typeErrorMessage random] m
    unfolding rows_def by simp
  moreover have "length ?anns = 100"
    using m by (simp add: forLoop_length)
  moreover have "?anns ! i = fst (switch random (getProp v ''annotation_type'') (rows ! i)
                                   (i * draws (getProp v ''annotation_type'')))" if "i < 100" for i
    using that m by (simp add: forLoop_annotations)
  ultimately show ?thesis
    by (auto simp: switch_text)
qed

theorem batch_of_150_rows_witness:
  "\<exists>anns.
      handler (\<lambda>e. ''TypeError'') (\<lambda>k. 0)
        \<lparr>method = ''POST'',
         json_body = Inr (JObj [(''task_id'', JStr ''t1''),
                                (''file_content'', JStr (concat (replicate 150 ''row\<newline>''))),
                                (''annotation_type'', JStr ''summarization'')])\<rparr> =
        \<lparr>status = 200,
         headers = corsHeaders @ [(''Content-Type'', ''application/json'')],
         body = SuccessBody True (Some (JStr ''t1'')) anns 100\<rparr>
      \<and> length anns = 100 \<and> text' (anns ! 0) = ''row''"
proof -
  let ?content = "concat (replicate 150 ''row\<newline>'')"
  let ?v = "JObj [(''task_id'', JStr ''t1''), (''file_content'', JStr ?content),
                  (''annotation_type'', JStr ''summarization'')]"
  let ?req = "\<lparr>method = ''POST'', json_body = Inr ?v\<rparr>"
  have 1: "method ?req \<noteq> ''OPTIONS''" by simp
  have 2: "json_body ?req = Inr ?v" by simp
  have 3: "getProp ?v ''file_content'' = Some (JStr ?content)" by simp
  have 4: "length (filter (\<lambda>row. truthy (trim row)) (split (CHR 0x0A) ?content)) = 150"
    by code_simp
  have 5: "filter (\<lambda>row. truthy (trim row)) (split (CHR 0x0A) ?content) ! 0 = ''row''"
    by code_simp
  have 6: "getProp ?v ''task_id'' = Some (JStr ''t1'')" by simp
  have z: "(0::nat) < 100" by simp
  from batch_of_150_rows[OF 1 2 3 4, of "\<lambda>e. ''TypeError''" "\<lambda>k. 0"]
  obtain anns where h:
    "handler (\<lambda>e. ''TypeError'') (\<lambda>k. 0) ?req =
        \<lparr>status = 200,
         headers = corsHeaders @ [(''Content-Type'', ''application/json'')],
         body = SuccessBody True (getProp ?v ''task_id'') anns 100\<rparr>
      \<and> length anns = 100
      \<and> (\<forall>i<100. anns ! i = fst (switch (\<lambda>k. 0) (getProp ?v ''annotation_type'')
                                   (filter (\<lambda>row. truthy (trim row)) (split (CHR 0x0A) ?content) ! i)
                                   (i * draws (getProp ?v ''annotation_type'')))
                  \<and> text' (anns ! i) = filter (\<lambda>row. truthy (trim row)) (split (CHR 0x0A) ?content) ! i)"
    ..
  have "handler (\<lambda>e. ''TypeError'') (\<lambda>k. 0) ?req =
        \<lparr>status = 200,
         headers = corsHeaders @ [(''Content-Type'', ''application/json'')],
         body = SuccessBody True (Some (JStr ''t1'')) anns 100\<rparr>"
    using h[THEN conjunct1] unfolding 6 .
  moreover have "length anns = 100"
    using h[THEN conjunct2, THEN conjunct1] .
  moreover have "text' (anns ! 0) = ''row''"
    using h[THEN conjunct2, THEN conjunct2, rule_format, OF z, THEN conjunct2] unfolding 5 .
  ultimately show ?thesis
    by (intro exI[of _ anns] conjI)
qed

text \<open>
  C7: rows that are empty or all white space are dropped before the loop: the texts of
  the annotations are the first 100 rows that are not all white space, in order. On the
  content \<^verbatim>\<open>a\n\nb\n \nc\<close> the handler returns exactly 3 annotations, for the rows
  \<^verbatim>\<open>a\<close>, \<^verbatim>\<open>b\<close> and \<^verbatim>\<open>c\<close>, whatever the annotation type.
\<close>

theorem blank_rows_dropped:
  assumes "method req \<noteq> ''OPTIONS''"
    and "json_body req = Inr v"
    and "getProp v ''file_content'' = Some (JStr content)"
  shows "\<exists>anns.
      body (handler typeErrorMessage random req)
        = SuccessBody True (getProp v ''task_id'') anns (length anns)
      \<and> map text' anns =
          take 100 (filter (\<lambda>row. \<not> list_all isWhiteSpace row) (split (CHR 0x0A) content))
      \<and> (content = ''a\<newline>\<newline>b\<newline> \<newline>c'' \<longrightarrow>
            length anns = 3 \<and> map text' anns = [''a'', ''b'', ''c''])"
proof -
  let ?rows = "filter (\<lambda>row. truthy (trim row)) (split (CHR 0x0A) content)"
  let ?anns = "forLoop random (getProp v ''annotation_type'') ?rows 0 0 []"
  have rows: "?rows = filter (\<lambda>row. \<not> list_all isWhiteSpace row) (split (CHR 0x0A) content)"
    by (simp add: truthy_trim)
  have b: "body (handler typeErrorMessage random req)
      = SuccessBody True (getProp v ''task_id'') ?anns (length ?anns)"
    using handler_success[OF assms, of typeErrorMessage random] by (simp add: forLoop_length)
  have t: "map text' ?anns = take 100 ?rows"
    by (rule forLoop_texts)
  have ex: "filter (\<lambda>row. truthy (trim row))
              (split (CHR 0x0A) ''a\<newline>\<newline>b\<newline> \<newline>c'') = [''a'', ''b'', ''c'']"
    by code_simp
  have c: "length ?anns = 3 \<and> map text' ?anns = [''a'', ''b'', ''c'']"
    if "content = ''a\<newline>\<newline>b\<newline> \<newline>c''"
  proof -
    from that ex have r: "?rows = [''a'', ''b'', ''c'']" by (simp only:)
    have "map text' ?anns = [''a'', ''b'', ''c'']"
      using t unfolding r by simp
    moreover have "length ?anns = 3"
      using forLoop_length[of random "getProp v ''annotation_type''" ?rows] unfolding r by simp
    ultimately show ?thesis by (intro conjI)
  qed
  have t': "map text' ?anns =
      take 100 (filter (\<lambda>row. \<not> list_all isWhiteSpace row) (split (CHR 0x0A) content))"
    using t rows by (simp only:)
  have c': "content = ''a\<newline>\<newline>b\<newline> \<newline>c'' \<longrightarrow>
      length ?anns = 3 \<and> map text' ?anns = [''a'', ''b'', ''c'']"
    by (rule impI) (rule c)
  from b t' c' show ?thesis
    by (intro exI[of _ ?anns] conjI)
qed

theorem blank_rows_dropped_witness:
  "\<exists>anns.
      body (handler (\<lambda>e. ''TypeError'') (\<lambda>k. 0)
        \<lparr>method = ''POST'',
         json_body = Inr (JObj [(''task_id'', JStr ''t1''),
                                (''file_content'', JStr ''a\<newline>\<newline>b\<newline> \<newline>c''),
                                (''annotation_type'', JStr ''text-classification'')])\<rparr>)
        = SuccessBody True (Some (JStr ''t1'')) anns 3
      \<and> map text' anns = [''a'', ''b'', ''c'']"
proof -
  let ?content = "''a\<newline>\<newline>b\<newline> \<newline>c''"
  let ?v = "JObj [(''task_id'', JStr ''t1''), (''file_content'', JStr ?content),
                  (''annotation_type'', JStr ''text-classification'')]"
  let ?req = "\<lparr>method = ''POST'', json_body = Inr ?v\<rparr>"
  have 1: "method ?req \<noteq> ''OPTIONS''" by simp
  have 2: "json_body ?req = Inr ?v" by simp
  have 3: "getProp ?v ''file_content'' = Some (JStr ?content)" by simp
  have 6: "getProp ?v ''task_id'' = Some (JStr ''t1'')" by simp
  from blank_rows_dropped[OF 1 2 3, of "\<lambda>e. ''TypeError''" "\<lambda>k. 0"]
  obtain anns where h:
    "body (handler (\<lambda>e. ''TypeError'') (\<lambda>k. 0) ?req)
        = SuccessBody True (getProp ?v ''task_id'') anns (length anns)
      \<and> map text' anns =
          take 100 (filter (\<lambda>row. \<not> list_all isWhiteSpace row) (split (CHR 0x0A) ?content))
      \<and> (?content = ''a\<newline>\<newline>b\<newline> \<newline>c'' \<longrightarrow>
            length anns = 3 \<and> map text' anns = [''a'', ''b'', ''c''])"
    ..
  note c = h[THEN conjunct2, THEN conjunct2, THEN mp, OF refl]
  have l: "length anns = 3" and t: "map text' anns = [''a'', ''b'', ''c'']"
    using c[THEN conjunct1] c[THEN conjunct2] .
  have "body (handler (\<lambda>e. ''TypeError'') (\<lambda>k. 0) ?req)
      = SuccessBody True (Some (JStr ''t1'')) anns 3"
    using h[THEN conjunct1] unfolding 6 l .
  with t show ?thesis
    by (intro exI[of _ anns] conjI)
qed

text \<open>
  C8: on a request that is not a preflight, when \<^verbatim>\<open>req.json()\<close> throws an error with
  message \<open>m\<close> the \<^verbatim>\<open>try\<close> block throws that error, and whenever the \<^verbatim>\<open>try\<close> block throws
  an error the handler answers with status 400 and the body
  \<^verbatim>\<open>{success: false, error: <message of the error>}\<close>, never with a success body.
\<close>

theorem failure_response:
  assumes "method req \<noteq> ''OPTIONS''"
  shows "(json_body req = Inl m \<longrightarrow> tryBlock typeErrorMessage random req = Inl (JsError m))
     \<and> (tryBlock typeErrorMessage random req = Inl err \<longrightarrow>
          handler typeErrorMessage random req =
            \<lparr>status = 400,
             headers = corsHeaders @ [(''Content-Type'', ''application/json'')],
             body = FailureBody False (message err)\<rparr>)"
  using assms by (simp add: handler_def tryBlock_def)

theorem failure_response_witness:
  "handler (\<lambda>e. ''TypeError'') (\<lambda>k. 0)
     \<lparr>method = ''POST'', json_body = Inl ''Unexpected end of JSON input''\<rparr> =
     \<lparr>status = 400,
      headers = corsHeaders @ [(''Content-Type'', ''application/json'')],
      body = FailureBody False ''Unexpected end of JSON input''\<rparr>
   \<and> handler (\<lambda>e. ''TypeError'') (\<lambda>k. 0)
     \<lparr>method = ''POST'', json_body = Inr (JObj [(''file_content'', JNum 5)])\<rparr> =
     \<lparr>status = 400,
      headers = corsHeaders @ [(''Content-Type'', ''application/json'')],
      body = FailureBody False ''TypeError''\<rparr>"
proof -
  let ?req = "\<lparr>method = ''POST'', json_body = Inl ''Unexpected end of JSON input''\<rparr>"
  have 1: "method ?req \<noteq> ''OPTIONS''" by simp
  have 2: "json_body ?req = Inl ''Unexpected end of JSON input''" by simp
  note f = failure_response[OF 1, of "''Unexpected end of JSON input''" "\<lambda>e. ''TypeError''"
      "\<lambda>k. 0" "JsError ''Unexpected end of JSON input''"]
  note t = f[THEN conjunct1, THEN mp, OF 2]
  from f[THEN conjunct2, THEN mp, OF t]
  have first: "handler (\<lambda>e. ''TypeError'') (\<lambda>k. 0) ?req =
     \<lparr>status = 400,
      headers = corsHeaders @ [(''Content-Type'', ''application/json'')],
      body = FailureBody False ''Unexpected end of JSON input''\<rparr>"
    by simp
  let ?req' = "\<lparr>method = ''POST'', json_body = Inr (JObj [(''file_content'', JNum 5)])\<rparr>"
  have 3: "method ?req' \<noteq> ''OPTIONS''" by simp
  have 4: "tryBlock (\<lambda>e. ''TypeError'') (\<lambda>k. 0) ?req' = Inl (JsError ''TypeError'')"
    by (simp add: tryBlock_def)
  from failure_response[OF 3, THEN conjunct2, THEN mp, OF 4]
  have second: "handler (\<lambda>e. ''TypeError'') (\<lambda>k. 0) ?req' =
     \<lparr>status = 400,
      headers = corsHeaders @ [(''Content-Type'', ''application/json'')],
      body = FailureBody False ''TypeError''\<rparr>"
    by simp
  from first second show ?thesis by (intro conjI)
qed

text \<open>
  C9: when \<^verbatim>\<open>file_content\<close> is empty or all white space and newlines, the handler answers
  with status 200 and a success body with no annotations and \<^verbatim>\<open>total_processed\<close> 0; and
  whenever the handler answers with a success body, \<^verbatim>\<open>success\<close> is true and
  \<^verbatim>\<open>total_processed\<close> is the number of annotations.
\<close>

theorem blank_content_gives_empty_success:
  "(method req \<noteq> ''OPTIONS'' \<and> json_body req = Inr v
      \<and> getProp v ''file_content'' = Some (JStr content) \<and> list_all isWhiteSpace content
     \<longrightarrow> handler typeErrorMessage random req =
           \<lparr>status = 200,
            headers = corsHeaders @ [(''Content-Type'', ''application/json'')],
            body = SuccessBody True (getProp v ''task_id'') [] 0\<rparr>)
   \<and> (body (handler typeErrorMessage random req) = SuccessBody s t anns k
     \<longrightarrow> s = True \<and> k = length anns)"
proof (intro conjI impI)
  assume a: "method req \<noteq> ''OPTIONS'' \<and> json_body req = Inr v
      \<and> getProp v ''file_content'' = Some (JStr content) \<and> list_all isWhiteSpace content"
  then have rows: "filter (\<lambda>row. truthy (trim row)) (split (CHR 0x0A) content) = []"
    using rows_of_blank_content by blast
  have "forLoop random (getProp v ''annotation_type'') [] 0 0 [] = []"
    by (simp add: forLoop_annotations)
  with a rows show "handler typeErrorMessage random req =
           \<lparr>status = 200,
            headers = corsHeaders @ [(''Content-Type'', ''application/json'')],
            body = SuccessBody True (getProp v ''task_id'') [] 0\<rparr>"
    using handler_success[of req v content typeErrorMessage random] by simp
next
  assume b: "body (handler typeErrorMessage random req) = SuccessBody s t anns k"
  from handler_success_body[OF b] obtain v content
    where "method req \<noteq> ''OPTIONS''" "json_body req = Inr v"
      "getProp v ''file_content'' = Some (JStr content)"
    by blast
  from handler_success[OF this, of typeErrorMessage random] b
  have s: "s = True"
    and anns: "anns = forLoop random (getProp v ''annotation_type'')
                 (filter (\<lambda>row. truthy (trim row)) (split (CHR 0x0A) content)) 0 0 []"
    and k: "k = min (length (filter (\<lambda>row. truthy (trim row)) (split (CHR 0x0A) content))) 100"
    by simp_all
  from s show "s = True" .
  from k show "k = length anns"
    unfolding anns forLoop_length .
qed

theorem blank_content_gives_empty_success_witness:
  "handler (\<lambda>e. ''TypeError'') (\<lambda>k. 0)
     \<lparr>method = ''POST'',
      json_body = Inr (JObj [(''task_id'', JStr ''t1''),
                             (''file_content'', JStr ''\<newline>  \<newline>\<newline> ''),
                             (''annotation_type'', JStr ''sentiment-analysis'')])\<rparr> =
     \<lparr>status = 200,
      headers = corsHeaders @ [(''Content-Type'', ''application/json'')],
      body = SuccessBody True (Some (JStr ''t1'')) [] 0\<rparr>
   \<and> total_processed (SuccessBody True (Some (JStr ''t1'')) [] 0)
       = length (annotations (SuccessBody True (Some (JStr ''t1'')) [] 0))"
proof -
  let ?content = "''\<newline>  \<newline>\<newline> ''"
  let ?v = "JObj [(''task_id'', JStr ''t1''), (''file_content'', JStr ?content),
                  (''annotation_type'', JStr ''sentiment-analysis'')]"
  let ?req = "\<lparr>method = ''POST'', json_body = Inr ?v\<rparr>"
  have ws: "list_all isWhiteSpace ?content" by code_simp
  have h: "method ?req \<noteq> ''OPTIONS'' \<and> json_body ?req = Inr ?v
      \<and> getProp ?v ''file_content'' = Some (JStr ?content) \<and> list_all isWhiteSpace ?content"
    using ws by simp
  have 6: "getProp ?v ''task_id'' = Some (JStr ''t1'')" by simp
  note f = blank_content_gives_empty_success[of ?req ?v ?content "\<lambda>e. ''TypeError''" "\<lambda>k. 0"
      True "Some (JStr ''t1'')" "[]" 0]
  have r: "handler (\<lambda>e. ''TypeError'') (\<lambda>k. 0) ?req =
     \<lparr>status = 200,
      headers = corsHeaders @ [(''Content-Type'', ''application/json'')],
      body = SuccessBody True (Some (JStr ''t1'')) [] 0\<rparr>"
    using f[THEN conjunct1, THEN mp, OF h] unfolding 6 .
  then have "body (handler (\<lambda>e. ''TypeError'') (\<lambda>k. 0) ?req)
      = SuccessBody True (Some (JStr ''t1'')) [] 0"
    by simp
  from f[THEN conjunct2, THEN mp, OF this] r show ?thesis by simp
qed

text \<open>
  C10: in every branch of the \<^verbatim>\<open>switch\<close>, also the default one, the text of the annotation
  is the row as it is; so annotation \<open>i\<close> of a response carries row \<open>i\<close> of the
  surviving rows unchanged (neither trimmed nor lower-cased).
\<close>

theorem annotation_text_is_row:
  "text' (fst (switch random annotation_type row n)) = row
   \<and> (method req \<noteq> ''OPTIONS'' \<and> json_body req = Inr v
        \<and> getProp v ''file_content'' = Some (JStr content)
        \<and> i < length (annotations (body (handler typeErrorMessage random req)))
      \<longrightarrow> text' (annotations (body (handler typeErrorMessage random req)) ! i)
            = filter (\<lambda>row. truthy (trim row)) (split (CHR 0x0A) content) ! i)"
proof (intro conjI impI)
  show "text' (fst (switch random annotation_type row n)) = row"
    by (rule switch_text)
next
  let ?rows = "filter (\<lambda>row. truthy (trim row)) (split (CHR 0x0A) content)"
  let ?anns = "annotations (body (handler typeErrorMessage random req))"
  assume a: "method req \<noteq> ''OPTIONS'' \<and> json_body req = Inr v
        \<and> getProp v ''file_content'' = Some (JStr content) \<and> i < length ?anns"
  then have anns: "?anns = forLoop random (getProp v ''annotation_type'') ?rows 0 0 []"
    using handler_success[of req v content typeErrorMessage random] by simp
  from a have i: "i < length ?anns" by simp
  then have "i < 100"
    unfolding anns by (simp add: forLoop_length)
  have "text' (?anns ! i) = map text' ?anns ! i"
    using i by (rule nth_map[symmetric])
  also have "map text' ?anns = take 100 ?rows"
    unfolding anns by (rule forLoop_texts)
  also have "take 100 ?rows ! i = ?rows ! i"
    using \<open>i < 100\<close> by simp
  finally show "text' (?anns ! i) = ?rows ! i" .
qed

theorem annotation_text_is_row_witness:
  "text' (fst (switch (\<lambda>k. 0) (Some (JNum 7)) '' The TEAM  Won '' 0)) = '' The TEAM  Won ''
   \<and> text' (annotations (body (handler (\<lambda>e. ''TypeError'') (\<lambda>k. 0)
        \<lparr>method = ''POST'',
         json_body = Inr (JObj [(''file_content'', JStr '' The TEAM  Won \<newline>\<newline>next''),
                                (''annotation_type'', JStr ''text-classification'')])\<rparr>)) ! 0)
       = '' The TEAM  Won ''"
proof -
  let ?content = "'' The TEAM  Won \<newline>\<newline>next''"
  let ?v = "JObj [(''file_content'', JStr ?content),
                  (''annotation_type'', JStr ''text-classification'')]"
  let ?req = "\<lparr>method = ''POST'', json_body = Inr ?v\<rparr>"
  let ?h = "handler (\<lambda>e. ''TypeError'') (\<lambda>k. 0) ?req"
  have rows: "filter (\<lambda>row. truthy (trim row)) (split (CHR 0x0A) ?content)
      = ['' The TEAM  Won '', ''next'']"
    by code_simp
  have 1: "method ?req \<noteq> ''OPTIONS''" by simp
  have 2: "json_body ?req = Inr ?v" by simp
  have 3: "getProp ?v ''file_content'' = Some (JStr ?content)" by simp
  have "length (annotations (body ?h)) = 2"
    unfolding handler_success[OF 1 2 3] rows by (simp add: forLoop_length)
  then have 4: "0 < length (annotations (body ?h))" by simp
  have h: "method ?req \<noteq> ''OPTIONS'' \<and> json_body ?req = Inr ?v
        \<and> getProp ?v ''file_content'' = Some (JStr ?content)
        \<and> 0 < length (annotations (body ?h))"
    using 1 2 3 4 by (intro conjI)
  note f = annotation_text_is_row[of "\<lambda>k. 0" "Some (JNum 7)" "'' The TEAM  Won ''" 0
      ?req ?v ?content 0 "\<lambda>e. ''TypeError''"]
  have "text' (annotations (body ?h) ! 0) = '' The TEAM  Won ''"
    using f[THEN conjunct2, THEN mp, OF h] unfolding rows by simp
  with f[THEN conjunct1] show ?thesis by (intro conjI)
qed

end
